theory Spec2Isabelle
  imports Complex_Main
begin

section \<open>The browser form of the weather fetcher (\<open>App.tsx\<close>)\<close>

text \<open>
  The form is one React component. Its state is five \<open>useState\<close> cells, its behaviour
  is the memoised \<open>coordsList\<close>, the asynchronous handler \<open>fetchWeather\<close> and the JSX
  it returns. The embedding keeps these three parts apart: pure functions for the
  string handling and the rendering, and explicit state passing for the handler,
  which is cut at its single \<open>await\<close> into the part that runs on the click and the
  part that runs when the request settles.

  A JavaScript string is represented by the bytes of its UTF-8 encoding (a
  \<^typ>\<open>string\<close>), so ASCII text reads as it does in the source and a character beyond
  ASCII is the bytes of its encoding. This is the form in which \<open>URLSearchParams\<close>
  writes a string out. A string with an unpaired surrogate has no such encoding and
  is not represented.
\<close>

subsection \<open>Strings: \<open>split\<close>, \<open>trim\<close> and \<open>filter(Boolean)\<close>\<close>

text \<open>
  \<open>s.split(/\n|\r/)\<close>: the pieces of \<open>s\<close> between line feeds and carriage returns.
  Every separator ends a piece, so the empty string gives one empty piece and
  \<open>"a\r\nb"\<close> gives three pieces.
\<close>

fun split_at :: "(char \<Rightarrow> bool) \<Rightarrow> string \<Rightarrow> string list" where
  "split_at sep [] = [[]]"
| "split_at sep (c # cs) =
     (if sep c then [] # split_at sep cs
      else (case split_at sep cs of
              [] \<Rightarrow> [[c]]
            | l # ls \<Rightarrow> (c # l) # ls))"

definition split_lines :: "string \<Rightarrow> string list" where
  "split_lines s = split_at (\<lambda>c. c = CHR 0x0A \<or> c = CHR 0x0D) s"

text \<open>
  \<open>String.prototype.trim\<close> removes white space and line terminators from both ends.
  These are the code points U+0009 to U+000D, U+0020, U+00A0, U+1680, U+2000 to
  U+200A, U+2028, U+2029, U+202F, U+205F, U+3000 and U+FEFF, listed here by their
  UTF-8 encodings.
\<close>

definition white_space :: "string list" where
  "white_space =
    [[CHR 0x09], [CHR 0x0A], [CHR 0x0B], [CHR 0x0C], [CHR 0x0D], [CHR 0x20],
     [CHR 0xC2, CHR 0xA0],
     [CHR 0xE1, CHR 0x9A, CHR 0x80],
     [CHR 0xE2, CHR 0x80, CHR 0x80], [CHR 0xE2, CHR 0x80, CHR 0x81],
     [CHR 0xE2, CHR 0x80, CHR 0x82], [CHR 0xE2, CHR 0x80, CHR 0x83],
     [CHR 0xE2, CHR 0x80, CHR 0x84], [CHR 0xE2, CHR 0x80, CHR 0x85],
     [CHR 0xE2, CHR 0x80, CHR 0x86], [CHR 0xE2, CHR 0x80, CHR 0x87],
     [CHR 0xE2, CHR 0x80, CHR 0x88], [CHR 0xE2, CHR 0x80, CHR 0x89],
     [CHR 0xE2, CHR 0x80, CHR 0x8A],
     [CHR 0xE2, CHR 0x80, CHR 0xA8], [CHR 0xE2, CHR 0x80, CHR 0xA9],
     [CHR 0xE2, CHR 0x80, CHR 0xAF],
     [CHR 0xE2, CHR 0x81, CHR 0x9F],
     [CHR 0xE3, CHR 0x80, CHR 0x80],
     [CHR 0xEF, CHR 0xBB, CHR 0xBF]]"

text \<open>The number of bytes of the white space character \<open>s\<close> starts with (ends with); 0 if none.\<close>

definition leading_space :: "string \<Rightarrow> nat" where
  "leading_space s =
     (case find (\<lambda>w. take (length w) s = w) white_space of
        None \<Rightarrow> 0
      | Some w \<Rightarrow> length w)"

definition trailing_space :: "string \<Rightarrow> nat" where
  "trailing_space s =
     (case find (\<lambda>w. length w \<le> length s \<and> drop (length s - length w) s = w) white_space of
        None \<Rightarrow> 0
      | Some w \<Rightarrow> length w)"

function trimStart :: "string \<Rightarrow> string" where
  "trimStart s = (if leading_space s = 0 then s else trimStart (drop (leading_space s) s))"
  by pat_completeness auto
termination
proof (relation "measure length")
  show "wf (measure length)" by simp
next
  fix s :: string
  assume "leading_space s \<noteq> 0"
  moreover have "leading_space s \<le> length s"
  proof (cases "find (\<lambda>w. take (length w) s = w) white_space")
    case None
    then show ?thesis by (simp add: leading_space_def)
  next
    case (Some w)
    then have "take (length w) s = w" by (auto simp: find_Some_iff)
    then have "length (take (length w) s) = length w" by simp
    then have "length w \<le> length s" by (simp add: min_def split: if_splits)
    with Some show ?thesis by (simp add: leading_space_def)
  qed
  ultimately show "(drop (leading_space s) s, s) \<in> measure length" by simp
qed

function trimEnd :: "string \<Rightarrow> string" where
  "trimEnd s = (if trailing_space s = 0 then s else trimEnd (take (length s - trailing_space s) s))"
  by pat_completeness auto
termination
proof (relation "measure length")
  show "wf (measure length)" by simp
next
  fix s :: string
  assume "trailing_space s \<noteq> 0"
  moreover have "trailing_space s \<le> length s"
    by (auto simp: trailing_space_def find_Some_iff split: option.splits)
  ultimately show "(take (length s - trailing_space s) s, s) \<in> measure length" by simp
qed

declare trimStart.simps [simp del] trimEnd.simps [simp del]

definition trim :: "string \<Rightarrow> string" where
  "trim s = trimEnd (trimStart s)"

text \<open>\<open>Boolean(s)\<close> of a string: true unless the string is empty.\<close>

definition Boolean :: "string \<Rightarrow> bool" where
  "Boolean s \<longleftrightarrow> s \<noteq> []"

text \<open>
  \<open>coordsList\<close>, the memoised value of
  \<open>coordsText.split(/\n|\r/).map((s) => s.trim()).filter(Boolean)\<close>.
\<close>

definition coordsList :: "string \<Rightarrow> string list" where
  "coordsList coordsText = filter Boolean (map trim (split_lines coordsText))"

subsection \<open>\<open>URLSearchParams\<close>\<close>

text \<open>
  A \<open>URLSearchParams\<close> object is its list of name-value pairs. \<open>append\<close> adds a pair at
  the end. \<open>set\<close> overwrites the first pair of that name and removes the others, or
  appends when there is none. \<open>toString\<close> is the \<open>application/x-www-form-urlencoded\<close>
  serializer of the URL Standard: pairs \<open>name=value\<close> joined by \<open>&\<close>, where a space is
  written \<open>+\<close>, ASCII letters and digits and \<open>*-._\<close> stand for themselves and every other
  byte is \<open>%\<close> and its two upper-case hexadecimal digits.
\<close>

type_synonym URLSearchParams = "(string \<times> string) list"

definition params_append :: "string \<Rightarrow> string \<Rightarrow> URLSearchParams \<Rightarrow> URLSearchParams" where
  "params_append name val ps = ps @ [(name, val)]"

fun set_first :: "string \<Rightarrow> string \<Rightarrow> URLSearchParams \<Rightarrow> URLSearchParams" where
  "set_first name val [] = []"
| "set_first name val (p # ps) =
     (if fst p = name then (name, val) # filter (\<lambda>q. fst q \<noteq> name) ps
      else p # set_first name val ps)"

definition params_set :: "string \<Rightarrow> string \<Rightarrow> URLSearchParams \<Rightarrow> URLSearchParams" where
  "params_set name val ps =
     (if name \<in> set (map fst ps) then set_first name val ps else ps @ [(name, val)])"

definition form_safe :: string where
  "form_safe = ''*-._0123456789ABCDEFGHIJKLMNOPQRSTUVWXYZabcdefghijklmnopqrstuvwxyz''"

definition hex_digit :: "nat \<Rightarrow> char" where
  "hex_digit n = ''0123456789ABCDEF'' ! (n mod 16)"

definition urlencode_byte :: "char \<Rightarrow> string" where
  "urlencode_byte c =
     (if c = CHR '' '' then ''+''
      else if c \<in> set form_safe then [c]
      else [CHR ''%'', hex_digit (of_char c div 16), hex_digit (of_char c mod 16)])"

definition urlencode :: "string \<Rightarrow> string" where
  "urlencode s = concat (map urlencode_byte s)"

fun join :: "string \<Rightarrow> string list \<Rightarrow> string" where
  "join sep [] = []"
| "join sep [x] = x"
| "join sep (x # y # ys) = x @ sep @ join sep (y # ys)"

definition params_toString :: "URLSearchParams \<Rightarrow> string" where
  "params_toString ps = join ''&'' (map (\<lambda>p. urlencode (fst p) @ ''='' @ urlencode (snd p)) ps)"

text \<open>
  The other direction is not part of the form: it is the parser of the same format in
  the URL Standard, which the receiving side applies to the query string. It is here
  to say what a query string carries. The string is cut at every \<open>&\<close>, empty pieces
  are skipped, a piece is cut at its first \<open>=\<close>, \<open>+\<close> becomes a space and \<open>%\<close> with two
  hexadecimal digits becomes the byte they denote.
\<close>

definition hex_value :: "char \<Rightarrow> nat option" where
  "hex_value c =
     (let n = (of_char c :: nat) in
      if 48 \<le> n \<and> n \<le> 57 then Some (n - 48)
      else if 65 \<le> n \<and> n \<le> 70 then Some (n - 55)
      else if 97 \<le> n \<and> n \<le> 102 then Some (n - 87)
      else None)"

fun percent_decode :: "string \<Rightarrow> string" where
  "percent_decode (c # h # l # cs) =
     (if c = CHR ''%'' then
        (case (hex_value h, hex_value l) of
           (Some a, Some b) \<Rightarrow> char_of (16 * a + b) # percent_decode cs
         | _ \<Rightarrow> c # percent_decode (h # l # cs))
      else c # percent_decode (h # l # cs))"
| "percent_decode cs = cs"

definition plus_to_space :: "string \<Rightarrow> string" where
  "plus_to_space s = map (\<lambda>c. if c = CHR ''+'' then CHR '' '' else c) s"

definition parse_pair :: "string \<Rightarrow> string \<times> string" where
  "parse_pair piece =
     (percent_decode (plus_to_space (takeWhile (\<lambda>c. c \<noteq> CHR ''='') piece)),
      percent_decode (plus_to_space (drop 1 (dropWhile (\<lambda>c. c \<noteq> CHR ''='') piece))))"

definition parse_query :: "string \<Rightarrow> URLSearchParams" where
  "parse_query q = map parse_pair (filter (\<lambda>piece. piece \<noteq> []) (split_at (\<lambda>c. c = CHR ''&'') q))"

subsection \<open>JavaScript's \<open>||\<close>, \<open>?.\<close> and \<open>??\<close>\<close>

text \<open>
  A value that may be \<open>null\<close> or \<open>undefined\<close> is an \<open>option\<close>. Of the strings only the
  empty one is falsy, so \<open>a || b\<close> is \<open>b\<close> when \<open>a\<close> is missing or empty. \<open>a?.f\<close> is
  \<^const>\<open>Option.bind\<close>.
\<close>

definition falsy :: "string option \<Rightarrow> bool" where
  "falsy a \<longleftrightarrow> a = None \<or> a = Some []"

definition or_js :: "string option \<Rightarrow> string option \<Rightarrow> string option" where
  "or_js a b = (if falsy a then b else a)"

text \<open>\<open>a || 'literal'\<close>, which is always a string.\<close>

definition or_literal :: "string option \<Rightarrow> string \<Rightarrow> string" where
  "or_literal a b = (case a of None \<Rightarrow> b | Some s \<Rightarrow> if s = [] then b else s)"

subsection \<open>The data: \<open>Reading\<close>, the build-time environment, requests and failures\<close>

text \<open>
  The form never computes with a number, it only hands it on from the response to
  a cell of the table, so a number is taken to be a real.
\<close>

type_synonym number = real

record Reading =
  provider :: string
  latitude :: number
  longitude :: number
  observed_at_unix :: "number option"
  temperature_c :: "number option"
  temperature_f :: "number option"
  humidity_pct :: "number option"
  pressure_hpa :: "number option"
  wind_speed_ms :: "number option"
  wind_direction_deg :: "number option"
  condition_code :: "string option"
  condition_text :: "string option"

text \<open>\<open>import.meta.env\<close>, which the bundler fixes when the form is built.\<close>

record env =
  VITE_BACKEND_BASE :: "string option"

definition BACKEND_BASE :: "env \<Rightarrow> string" where
  "BACKEND_BASE e = or_literal (VITE_BACKEND_BASE e) ''http://127.0.0.1:8010''"

text \<open>The request methods axios has a function for; the form calls only \<open>axios.get\<close>.\<close>

datatype http_method = GET | DELETE | HEAD | OPTIONS | POST | PUT | PATCH

record request =
  http_method :: http_method
  url :: string

text \<open>
  What \<open>catch (e: any)\<close> may receive. An axios failure carries a \<open>message\<close> and, when
  the server answered, the \<open>response\<close> with its parsed body in \<open>data\<close>; the endpoint's
  error body is the JSON object \<open>{error: string}\<close>. Each level may be missing.
\<close>

record ErrorBody =
  error :: "string option"

record Response =
  data :: "ErrorBody option"

record AxiosError =
  response :: "Response option"
  message :: "string option"

datatype outcome = Resolved "Reading list" | Rejected "AxiosError option"

subsection \<open>The component's state and \<open>fetchWeather\<close>\<close>

record state =
  provider :: string
  coordsText :: string
  readings :: "Reading list option"
  loading :: bool
  error :: "string option"

text \<open>The arguments of the five \<open>useState\<close> calls.\<close>

definition initial :: state where
  "initial =
     \<lparr>state.provider = ''openmeteo'',
      coordsText = ''37.7749,-122.4194'' @ [CHR 0x0A] @ ''40.7128,-74.0060'',
      readings = None,
      loading = False,
      state.error = None\<rparr>"

text \<open>
  Lines 41 to 44: the parameters and the URL. The loop
  \<open>for (const c of coordsList) params.append('coords', c)\<close> is a left fold.
\<close>

definition fetchWeather_params :: "state \<Rightarrow> URLSearchParams" where
  "fetchWeather_params st =
     fold (\<lambda>c params. params_append ''coords'' c params) (coordsList (coordsText st))
       (params_set ''provider'' (state.provider st) [])"

definition fetchWeather_url :: "env \<Rightarrow> state \<Rightarrow> string" where
  "fetchWeather_url e st =
     BACKEND_BASE e @ ''/api/weather?'' @ params_toString (fetchWeather_params st)"

text \<open>
  \<open>fetchWeather\<close> up to its \<open>await\<close>: the three setters, then \<open>axios.get(url)\<close>. The
  result is the new state and the request that is now in flight.
\<close>

definition fetchWeather_begin :: "env \<Rightarrow> state \<Rightarrow> state \<times> request" where
  "fetchWeather_begin e st =
     (st\<lparr>loading := True, state.error := None, readings := None\<rparr>,
      \<lparr>http_method = GET, url = fetchWeather_url e st\<rparr>)"

text \<open>
  \<open>fetchWeather\<close> after its \<open>await\<close>: \<open>setReadings(resp.data)\<close> when the promise
  resolved, the \<open>catch\<close> clause when it rejected, and \<open>finally\<close> in both cases.
\<close>

definition error_message :: "AxiosError option \<Rightarrow> string" where
  "error_message e =
     or_literal
       (or_js (Option.bind (Option.bind (Option.bind e response) data) ErrorBody.error)
              (Option.bind e message))
       ''Request failed''"

fun fetchWeather_settle :: "outcome \<Rightarrow> state \<Rightarrow> state" where
  "fetchWeather_settle (Resolved resp_data) st =
     st\<lparr>readings := Some resp_data, loading := False\<rparr>"
| "fetchWeather_settle (Rejected e) st =
     st\<lparr>state.error := Some (error_message e), loading := False\<rparr>"

subsection \<open>The JSX\<close>

text \<open>
  The component returns a tree of elements. An element has its tag, its attributes
  and its children; a child is an element, a string or a number. The \<open>style\<close>
  attributes are layout only and are left out. The event handlers are kept as the
  marks \<open>OnChange\<close> and \<open>OnClick\<close>: what they do is \<open>setCoordsText\<close> and \<open>fetchWeather\<close>.
\<close>

datatype attribute = Value string | Rows nat | OnChange | OnClick | Disabled bool | Key nat

datatype node = Element string "attribute list" "node list" | Text string | Number number

text \<open>\<open>v ?? ''\<close> as a child of a cell.\<close>

definition nullish_empty :: "number option \<Rightarrow> node" where
  "nullish_empty v = (case v of None \<Rightarrow> Text [] | Some n \<Rightarrow> Number n)"

text \<open>The function given to \<open>readings.map\<close>, lines 91 to 100.\<close>

definition render_row :: "Reading \<Rightarrow> nat \<Rightarrow> node" where
  "render_row r idx =
     Element ''tr'' [Key idx]
       [Element ''td'' [] [nullish_empty (temperature_c r)],
        Element ''td'' [] [nullish_empty (humidity_pct r)],
        Element ''td'' [] [nullish_empty (pressure_hpa r)],
        Element ''td'' [] [nullish_empty (wind_speed_ms r)],
        Element ''td'' [] [nullish_empty (wind_direction_deg r)]]"

text \<open>\<open>readings.map((r, idx) => ...)\<close>: the rows, each with its index as key.\<close>

definition render_rows :: "Reading list \<Rightarrow> node list" where
  "render_rows rs = map (\<lambda>(idx, r). render_row r idx) (enumerate 0 rs)"

text \<open>Lines 78 to 103, the table. The degree sign is the bytes C2 B0.\<close>

definition render_table :: "Reading list \<Rightarrow> node" where
  "render_table rs =
     Element ''div'' []
       [Element ''table'' []
          [Element ''thead'' []
             [Element ''tr'' []
                [Element ''th'' [] [Text (''T ('' @ [CHR 0xC2, CHR 0xB0] @ ''C)'')],
                 Element ''th'' [] [Text ''Hum (%)''],
                 Element ''th'' [] [Text ''Press (hPa)''],
                 Element ''th'' [] [Text ''Wind (m/s)''],
                 Element ''th'' [] [Text (''Dir ('' @ [CHR 0xC2, CHR 0xB0] @ '')'')]]],
           Element ''tbody'' [] (render_rows rs)]]"

text \<open>
  Lines 73 to 75, \<open>{error && ...}\<close>: no node when \<open>error\<close> is \<open>null\<close> or the empty
  string, which React does not render.
\<close>

definition render_error :: "string option \<Rightarrow> node list" where
  "render_error err =
     (case err of
        None \<Rightarrow> []
      | Some msg \<Rightarrow> if msg = [] then [] else [Element ''div'' [] [Text ''Error: '', Text msg]])"

text \<open>
  Lines 77 to 104, \<open>{readings && ...}\<close>: no node when \<open>readings\<close> is \<open>null\<close>; an array,
  also the empty one, is truthy.
\<close>

definition render_readings :: "Reading list option \<Rightarrow> node list" where
  "render_readings rds = (case rds of None \<Rightarrow> [] | Some rs \<Rightarrow> [render_table rs])"

text \<open>Lines 54 to 106. The ellipsis of the button's text is the bytes E2 80 A6.\<close>

definition render :: "state \<Rightarrow> node" where
  "render st =
     Element ''div'' []
       ([Element ''h2'' [] [Text ''Weather Fetcher''],
         Element ''div'' []
           [Element ''label'' []
              [Text ''Coordinates (one per line, lat,lon)'',
               Element ''textarea'' [Value (coordsText st), OnChange, Rows 6] []],
            Element ''button'' [OnClick, Disabled (loading st)]
              [Text (if loading st then ''Fetching'' @ [CHR 0xE2, CHR 0x80, CHR 0xA6]
                     else ''Fetch Weather'')]]]
        @ render_error (state.error st)
        @ render_readings (readings st))"

text \<open>Reading a rendered tree: the elements of a tag in document order, and their parts.\<close>

fun elements :: "string \<Rightarrow> node \<Rightarrow> node list" where
  "elements tag (Element name attrs kids) =
     (if name = tag then [Element name attrs kids] else []) @ concat (map (elements tag) kids)"
| "elements tag (Text s) = []"
| "elements tag (Number n) = []"

fun children :: "node \<Rightarrow> node list" where
  "children (Element name attrs kids) = kids"
| "children (Text s) = []"
| "children (Number n) = []"

fun attributes :: "node \<Rightarrow> attribute list" where
  "attributes (Element name attrs kids) = attrs"
| "attributes (Text s) = []"
| "attributes (Number n) = []"

text \<open>The header cells and the body rows of the table on the page, each cell by its children.\<close>

definition table_header :: "node \<Rightarrow> node list list" where
  "table_header page = map children (elements ''th'' page)"

definition table_rows :: "node \<Rightarrow> node list list list" where
  "table_rows page =
     map (\<lambda>row. map children (elements ''td'' row))
       (concat (map (elements ''tr'') (elements ''tbody'' page)))"

subsection \<open>The form in use\<close>

text \<open>
  What can happen to the page: the user edits the text area, the user clicks the
  button, or the request in flight settles. A click reaches \<open>fetchWeather\<close> only if
  the rendered button carries the handler and is not disabled. Besides the
  component's state a session records the requests in flight and all requests sent.
\<close>

datatype event = Change string | Click | Settle outcome

record session =
  ui :: state
  in_flight :: "request list"
  sent :: "request list"

definition start :: session where
  "start = \<lparr>ui = initial, in_flight = [], sent = []\<rparr>"

definition clickable :: "node \<Rightarrow> bool" where
  "clickable page =
     list_ex (\<lambda>b. OnClick \<in> set (attributes b) \<and> Disabled True \<notin> set (attributes b))
       (elements ''button'' page)"

fun step :: "env \<Rightarrow> event \<Rightarrow> session \<Rightarrow> session" where
  "step e (Change text) s = s\<lparr>ui := (ui s)\<lparr>coordsText := text\<rparr>\<rparr>"
| "step e Click s =
     (if clickable (render (ui s))
      then (case fetchWeather_begin e (ui s) of
              (st, req) \<Rightarrow> s\<lparr>ui := st, in_flight := in_flight s @ [req], sent := sent s @ [req]\<rparr>)
      else s)"
| "step e (Settle out) s =
     (case in_flight s of
        [] \<Rightarrow> s
      | req # reqs \<Rightarrow> s\<lparr>ui := fetchWeather_settle out (ui s), in_flight := reqs\<rparr>)"

definition run :: "env \<Rightarrow> event list \<Rightarrow> session \<Rightarrow> session" where
  "run e evs s = fold (step e) evs s"

subsection \<open>The invariant of a session\<close>

text \<open>
  What holds of every session the events can reach: the provider is the initial one, at
  most one request is in flight and \<open>loading\<close> says whether one is, and while one is in
  flight neither an error nor readings are held.
\<close>

definition session_invariant :: "session \<Rightarrow> bool" where
  "session_invariant s \<longleftrightarrow>
     state.provider (ui s) = ''openmeteo'' \<and>
     length (in_flight s) \<le> 1 \<and>
     (loading (ui s) \<longleftrightarrow> in_flight s \<noteq> []) \<and>
     (loading (ui s) \<longrightarrow> state.error (ui s) = None \<and> readings (ui s) = None) \<and>
     (state.error (ui s) = None \<or> readings (ui s) = None)"

subsection \<open>Two readings to try the form on\<close>

abbreviation example_reading :: Reading where
  "example_reading \<equiv>
     \<lparr>Reading.provider = ''openmeteo'', latitude = 37.7749, longitude = -122.4194,
      observed_at_unix = Some 1700000000, temperature_c = Some 18.5, temperature_f = Some 65.3,
      humidity_pct = None, pressure_hpa = Some 1013, wind_speed_ms = Some 3.2,
      wind_direction_deg = None, condition_code = Some ''0'', condition_text = Some ''Clear''\<rparr>"

abbreviation empty_reading :: Reading where
  "empty_reading \<equiv>
     \<lparr>Reading.provider = ''openmeteo'', latitude = 40.7128, longitude = -74.006,
      observed_at_unix = None, temperature_c = None, temperature_f = None,
      humidity_pct = None, pressure_hpa = None, wind_speed_ms = None,
      wind_direction_deg = None, condition_code = None, condition_text = None\<rparr>"

section \<open>Properties\<close>

subsection \<open>Reading the rendered page\<close>

lemma elements_nullish [simp]: "elements tag (nullish_empty v) = []"
  by (simp add: nullish_empty_def split: option.splits)

lemma elements_tr_rows: "concat (map (elements ''tr'') (render_rows rs)) = render_rows rs"
proof -
  have "concat (map (elements ''tr'') (map (\<lambda>(idx, r). render_row r idx) xs))
          = map (\<lambda>(idx, r). render_row r idx) xs" for xs
    by (induction xs) (simp_all add: split_def render_row_def)
  then show ?thesis by (simp only: render_rows_def)
qed

lemma elements_rows_other:
  assumes "tag \<noteq> ''tr''" and "tag \<noteq> ''td''"
  shows "concat (map (elements tag) (render_rows rs)) = []"
proof -
  have "concat (map (elements tag) (map (\<lambda>(idx, r). render_row r idx) xs)) = []" for xs
    using assms by (induction xs) (simp_all add: split_def render_row_def)
  then show ?thesis by (simp only: render_rows_def)
qed

lemma cells_rows:
  "map (\<lambda>row. map children (elements ''td'' row)) (render_rows rs) =
     map (\<lambda>r. [[nullish_empty (temperature_c r)], [nullish_empty (humidity_pct r)],
      [nullish_empty (pressure_hpa r)], [nullish_empty (wind_speed_ms r)],
      [nullish_empty (wind_direction_deg r)]]) rs"
proof -
  have "map (\<lambda>row. map children (elements ''td'' row)) (map (\<lambda>(idx, r). render_row r idx) xs) =
     map (\<lambda>r. [[nullish_empty (temperature_c r)], [nullish_empty (humidity_pct r)],
      [nullish_empty (pressure_hpa r)], [nullish_empty (wind_speed_ms r)],
      [nullish_empty (wind_direction_deg r)]]) (map snd xs)" for xs
    by (induction xs) (simp_all add: split_def render_row_def)
  from this [of "enumerate 0 rs"] show ?thesis by (simp only: render_rows_def map_snd_enumerate)
qed

lemma table_rows_table:
  "table_rows (render_table rs) =
     map (\<lambda>r. [[nullish_empty (temperature_c r)], [nullish_empty (humidity_pct r)],
      [nullish_empty (pressure_hpa r)], [nullish_empty (wind_speed_ms r)],
      [nullish_empty (wind_direction_deg r)]]) rs"
proof -
  have "elements ''tbody'' (render_table rs) = [Element ''tbody'' [] (render_rows rs)]"
    by (simp add: render_table_def elements_rows_other)
  then have "table_rows (render_table rs) =
      map (\<lambda>row. map children (elements ''td'' row)) (render_rows rs)"
    by (simp add: table_rows_def elements_tr_rows)
  then show ?thesis by (simp only: cells_rows)
qed

lemma table_header_table:
  "table_header (render_table rs) =
     [[Text (''T ('' @ [CHR 0xC2, CHR 0xB0] @ ''C)'')], [Text ''Hum (%)''], [Text ''Press (hPa)''],
      [Text ''Wind (m/s)''], [Text (''Dir ('' @ [CHR 0xC2, CHR 0xB0] @ '')'')]]"
  by (simp add: table_header_def render_table_def elements_rows_other)

lemma elements_render_error:
  "tag \<noteq> ''div'' \<Longrightarrow> concat (map (elements tag) (render_error err)) = []"
  by (cases err) (simp_all add: render_error_def)

lemma elements_tbody_page:
  "elements ''tbody'' (render st) = concat (map (elements ''tbody'') (render_readings (readings st)))"
  by (simp add: render_def elements_render_error)

lemma elements_th_page:
  "elements ''th'' (render st) = concat (map (elements ''th'') (render_readings (readings st)))"
  by (simp add: render_def elements_render_error)

lemma table_rows_page:
  "table_rows (render st) =
     (case readings st of None \<Rightarrow> [] | Some rs \<Rightarrow> table_rows (render_table rs))"
  by (simp add: table_rows_def elements_tbody_page render_readings_def split: option.splits)

lemma table_header_page:
  "table_header (render st) =
     (case readings st of None \<Rightarrow> [] | Some rs \<Rightarrow> table_header (render_table rs))"
  by (simp add: table_header_def elements_th_page render_readings_def split: option.splits)

lemma elements_button_page:
  "elements ''button'' (render st) =
     [Element ''button'' [OnClick, Disabled (loading st)]
        [Text (if loading st then ''Fetching'' @ [CHR 0xE2, CHR 0x80, CHR 0xA6] else ''Fetch Weather'')]]"
proof -
  have "concat (map (elements ''button'') (render_readings rds)) = []" for rds
    by (cases rds) (simp_all add: render_readings_def render_table_def elements_rows_other)
  then show ?thesis by (simp add: render_def elements_render_error)
qed

lemma clickable_page: "clickable (render st) = (\<not> loading st)"
  by (simp add: clickable_def elements_button_page)

subsection \<open>The sessions the events can reach\<close>

lemma settle_provider: "state.provider (fetchWeather_settle out st) = state.provider st"
  by (cases out) simp_all

lemma step_provider: "state.provider (ui (step e ev s)) = state.provider (ui s)"
  by (cases ev) (auto simp: fetchWeather_begin_def settle_provider split: list.splits)

lemma session_invariant_start: "session_invariant start"
  by (simp add: session_invariant_def start_def initial_def)

lemma session_invariant_step: "session_invariant s \<Longrightarrow> session_invariant (step e ev s)"
proof (cases ev)
  case (Change t)
  assume "session_invariant s"
  with Change show ?thesis by (simp add: session_invariant_def)
next
  case Click
  assume "session_invariant s"
  with Click show ?thesis
    by (auto simp: session_invariant_def clickable_page fetchWeather_begin_def)
next
  case (Settle out)
  assume "session_invariant s"
  with Settle show ?thesis
    by (cases out; cases "in_flight s") (auto simp: session_invariant_def)
qed

lemma session_invariant_run: "session_invariant s \<Longrightarrow> session_invariant (run e evs s)"
  unfolding run_def by (induction evs arbitrary: s) (simp_all add: session_invariant_step)

lemma session_invariant_reachable: "session_invariant (run e evs start)"
  by (rule session_invariant_run [OF session_invariant_start])

lemma cells_render_row:
  "map children (children (render_row r i)) =
     [[nullish_empty (temperature_c r)], [nullish_empty (humidity_pct r)],
      [nullish_empty (pressure_hpa r)], [nullish_empty (wind_speed_ms r)],
      [nullish_empty (wind_direction_deg r)]]"
  by (simp add: render_row_def)

subsection \<open>The table\<close>

text \<open>
  Claim C1, as amended. For every successful response the page shows a table with
  five columns, headed \<open>T (C)\<close>, \<open>Hum (%)\<close>, \<open>Press (hPa)\<close>, \<open>Wind (m/s)\<close> and \<open>Dir\<close>,
  and one row per reading, whose cells are the reading's \<open>temperature_c\<close>,
  \<open>humidity_pct\<close>, \<open>pressure_hpa\<close>, \<open>wind_speed_ms\<close> and \<open>wind_direction_deg\<close>.
\<close>

theorem table_shows_five_fields:
  "table_header (render (fetchWeather_settle (Resolved rs) st)) =
     [[Text (''T ('' @ [CHR 0xC2, CHR 0xB0] @ ''C)'')], [Text ''Hum (%)''], [Text ''Press (hPa)''],
      [Text ''Wind (m/s)''], [Text (''Dir ('' @ [CHR 0xC2, CHR 0xB0] @ '')'')]]
   \<and> table_rows (render (fetchWeather_settle (Resolved rs) st)) =
     map (\<lambda>r. [[nullish_empty (temperature_c r)], [nullish_empty (humidity_pct r)],
                [nullish_empty (pressure_hpa r)], [nullish_empty (wind_speed_ms r)],
                [nullish_empty (wind_direction_deg r)]]) rs
   \<and> length (table_rows (render (fetchWeather_settle (Resolved rs) st))) = length rs"
proof (intro conjI)
  show "table_header (render (fetchWeather_settle (Resolved rs) st)) =
     [[Text (''T ('' @ [CHR 0xC2, CHR 0xB0] @ ''C)'')], [Text ''Hum (%)''], [Text ''Press (hPa)''],
      [Text ''Wind (m/s)''], [Text (''Dir ('' @ [CHR 0xC2, CHR 0xB0] @ '')'')]]"
    by (simp add: table_header_page table_header_table)
  show rows: "table_rows (render (fetchWeather_settle (Resolved rs) st)) =
     map (\<lambda>r. [[nullish_empty (temperature_c r)], [nullish_empty (humidity_pct r)],
                [nullish_empty (pressure_hpa r)], [nullish_empty (wind_speed_ms r)],
                [nullish_empty (wind_direction_deg r)]]) rs"
    by (simp add: table_rows_page table_rows_table)
  show "length (table_rows (render (fetchWeather_settle (Resolved rs) st))) = length rs"
    by (simp only: rows length_map)
qed

text \<open>
  Claim C1 as it was stated asks for ten columns, among them the provider, the
  coordinate, the timestamp and the condition. For a response of one reading the
  table has five header cells and one row of five cells, and a reading that differs
  in provider, coordinate, timestamp and condition gives the same row.
\<close>

theorem table_columns_counterexample:
  "length (table_header (render (fetchWeather_settle (Resolved [example_reading]) initial))) = 5
   \<and> table_rows (render (fetchWeather_settle (Resolved [example_reading]) initial)) =
       [[[Number 18.5], [Text []], [Number 1013], [Number 3.2], [Text []]]]
   \<and> table_rows (render (fetchWeather_settle
         (Resolved [example_reading\<lparr>Reading.provider := ''weatherapi'', latitude := 0,
            longitude := 0, observed_at_unix := None, condition_code := None,
            condition_text := Some ''Rain''\<rparr>]) initial)) =
       table_rows (render (fetchWeather_settle (Resolved [example_reading]) initial))"
  by (simp add: table_header_page table_rows_page table_header_table table_rows_table
      nullish_empty_def)

text \<open>
  Claim C7. The rows of the table are the readings of the response in the order of
  the array: there are as many rows as readings and row \<open>i\<close> is the rendering of
  reading \<open>i\<close>. So if the readings answer the coordinates of a list one by one, in
  order, the rows do.
\<close>

theorem rows_in_response_order:
  "length (table_rows (render (fetchWeather_settle (Resolved rs) st))) = length rs
   \<and> (\<forall>i < length rs.
        table_rows (render (fetchWeather_settle (Resolved rs) st)) ! i =
          map children (children (render_row (rs ! i) i)))
   \<and> (list_all2 answers coords rs \<longrightarrow>
        list_all2 (\<lambda>c row. \<exists>r i. answers c r \<and> row = map children (children (render_row r i)))
          coords (table_rows (render (fetchWeather_settle (Resolved rs) st))))"
proof -
  let ?rows = "table_rows (render (fetchWeather_settle (Resolved rs) st))"
  have rows: "?rows = map (\<lambda>r. map children (children (render_row r 0))) rs"
    by (simp add: table_rows_page table_rows_table cells_render_row)
  have "length ?rows = length rs" by (simp only: rows length_map)
  moreover have "\<forall>i < length rs. ?rows ! i = map children (children (render_row (rs ! i) i))"
    unfolding rows by (simp add: cells_render_row)
  moreover have "list_all2 answers coords rs \<longrightarrow>
        list_all2 (\<lambda>c row. \<exists>r i. answers c r \<and> row = map children (children (render_row r i)))
          coords ?rows"
    unfolding rows by (auto simp: list_all2_map2 elim!: list_all2_mono)
  ultimately show ?thesis by blast
qed

theorem rows_in_response_order_witness:
  "table_rows (render (fetchWeather_settle (Resolved [example_reading, empty_reading]) initial)) ! 1
     = map children (children (render_row empty_reading 1))
   \<and> list_all2 (\<lambda>c row. \<exists>r i. (c = (latitude r, longitude r)) \<and> row = map children (children (render_row r i)))
       [(37.7749, -122.4194), (40.7128, -74.006)]
       (table_rows (render (fetchWeather_settle (Resolved [example_reading, empty_reading]) initial)))"
  using rows_in_response_order [of "[example_reading, empty_reading]" initial
      "\<lambda>c r. c = (latitude r, longitude r)" "[(37.7749, -122.4194), (40.7128, -74.006)]"]
  by simp

text \<open>
  Claim C8. In the row of every reading of a response, each of the five displayed
  fields (\<open>temperature_c\<close>, \<open>humidity_pct\<close>, \<open>pressure_hpa\<close>, \<open>wind_speed_ms\<close>,
  \<open>wind_direction_deg\<close>) that is \<open>null\<close> gives a cell holding the empty string, and no
  cell of the row holds the text \<open>null\<close>. Rendering is a total function: there is no
  input on which it fails.
\<close>

theorem null_field_renders_empty_cell:
  assumes "i < length rs"
  shows "(temperature_c (rs ! i) = None \<longrightarrow>
            table_rows (render (fetchWeather_settle (Resolved rs) st)) ! i ! 0 = [Text []])
       \<and> (humidity_pct (rs ! i) = None \<longrightarrow>
            table_rows (render (fetchWeather_settle (Resolved rs) st)) ! i ! 1 = [Text []])
       \<and> (pressure_hpa (rs ! i) = None \<longrightarrow>
            table_rows (render (fetchWeather_settle (Resolved rs) st)) ! i ! 2 = [Text []])
       \<and> (wind_speed_ms (rs ! i) = None \<longrightarrow>
            table_rows (render (fetchWeather_settle (Resolved rs) st)) ! i ! 3 = [Text []])
       \<and> (wind_direction_deg (rs ! i) = None \<longrightarrow>
            table_rows (render (fetchWeather_settle (Resolved rs) st)) ! i ! 4 = [Text []])
       \<and> [Text ''null''] \<notin> set (table_rows (render (fetchWeather_settle (Resolved rs) st)) ! i)"
proof -
  have rows: "table_rows (render (fetchWeather_settle (Resolved rs) st)) =
     map (\<lambda>r. [[nullish_empty (temperature_c r)], [nullish_empty (humidity_pct r)],
                [nullish_empty (pressure_hpa r)], [nullish_empty (wind_speed_ms r)],
                [nullish_empty (wind_direction_deg r)]]) rs"
    by (simp add: table_rows_page table_rows_table)
  have not_null: "nullish_empty v \<noteq> Text ''null''" for v
    by (simp add: nullish_empty_def split: option.splits)
  have empty: "nullish_empty None = Text []"
    by (simp add: nullish_empty_def)
  show ?thesis
    unfolding rows using assms by (simp add: not_null not_null [symmetric] empty)
qed

theorem null_field_renders_empty_cell_witness:
  "table_rows (render (fetchWeather_settle (Resolved [example_reading, empty_reading]) initial)) ! 1
     = [[Text []], [Text []], [Text []], [Text []], [Text []]]
   \<and> table_rows (render (fetchWeather_settle (Resolved [example_reading, empty_reading]) initial)) ! 0 ! 1
     = [Text []]"
proof -
  have "table_rows (render (fetchWeather_settle (Resolved [example_reading, empty_reading]) initial)) ! 0 ! 1
     = [Text []]"
    using null_field_renders_empty_cell [of 0 "[example_reading, empty_reading]" initial] by simp
  moreover have "length (table_rows (render (fetchWeather_settle (Resolved [example_reading, empty_reading]) initial)) ! 1) = 5"
    by (simp add: table_rows_page table_rows_table)
  ultimately show ?thesis
    using null_field_renders_empty_cell [of 1 "[example_reading, empty_reading]" initial]
    by (simp add: list_eq_iff_nth_eq less_Suc_eq numeral_eq_Suc)
qed

subsection \<open>The fetch as a state machine\<close>

lemma error_message_nonempty: "error_message e \<noteq> []"
  by (auto simp: error_message_def or_literal_def or_js_def falsy_def split: option.splits)

text \<open>
  Claim C9. A fetch begins by setting both \<open>error\<close> and \<open>readings\<close> to \<open>null\<close>; when it
  settles it changes at most one of the two; and in every state the form can reach
  one of them is \<open>null\<close>, so the error line and the table are never on the page together.
\<close>

theorem error_and_readings_exclusive:
  "state.error (fst (fetchWeather_begin e st)) = None
   \<and> readings (fst (fetchWeather_begin e st)) = None
   \<and> (state.error (fetchWeather_settle out st) = state.error st
        \<or> readings (fetchWeather_settle out st) = readings st)
   \<and> (state.error (ui (run e evs start)) = None \<or> readings (ui (run e evs start)) = None)
   \<and> (render_error (state.error (ui (run e evs start))) = []
        \<or> render_readings (readings (ui (run e evs start))) = [])"
proof (intro conjI)
  show "state.error (fst (fetchWeather_begin e st)) = None"
    by (simp add: fetchWeather_begin_def)
  show "readings (fst (fetchWeather_begin e st)) = None"
    by (simp add: fetchWeather_begin_def)
  show "state.error (fetchWeather_settle out st) = state.error st
        \<or> readings (fetchWeather_settle out st) = readings st"
    by (cases out) simp_all
  show excl: "state.error (ui (run e evs start)) = None \<or> readings (ui (run e evs start)) = None"
    using session_invariant_reachable [of e evs] by (simp add: session_invariant_def)
  then show "render_error (state.error (ui (run e evs start))) = []
        \<or> render_readings (readings (ui (run e evs start))) = []"
    by (auto simp: render_error_def render_readings_def)
qed

text \<open>
  Claim C10. The button is rendered with \<open>disabled\<close> equal to \<open>loading\<close>, and a click
  while \<open>loading\<close> holds changes nothing. In every state the form can reach at most one
  request is in flight, and \<open>loading\<close> holds exactly when one is. Settling sets
  \<open>loading\<close> to false, for a resolved and for a rejected request alike, and leaves no
  request in flight.
\<close>

theorem one_request_at_a_time:
  "elements ''button'' (render st) =
     [Element ''button'' [OnClick, Disabled (loading st)]
        [Text (if loading st then ''Fetching'' @ [CHR 0xE2, CHR 0x80, CHR 0xA6] else ''Fetch Weather'')]]
   \<and> (loading (ui s) \<longrightarrow> step e Click s = s)
   \<and> length (in_flight (run e evs start)) \<le> 1
   \<and> loading (ui (run e evs start)) = (length (in_flight (run e evs start)) = 1)
   \<and> loading (fetchWeather_settle out st) = False
   \<and> (in_flight (run e evs start) \<noteq> [] \<longrightarrow>
        loading (ui (step e (Settle out) (run e evs start))) = False
        \<and> in_flight (step e (Settle out) (run e evs start)) = [])"
proof (intro conjI)
  show "elements ''button'' (render st) =
     [Element ''button'' [OnClick, Disabled (loading st)]
        [Text (if loading st then ''Fetching'' @ [CHR 0xE2, CHR 0x80, CHR 0xA6] else ''Fetch Weather'')]]"
    by (rule elements_button_page)
  show "loading (ui s) \<longrightarrow> step e Click s = s"
    by (simp add: clickable_page)
  have wf: "session_invariant (run e evs start)" by (rule session_invariant_reachable)
  then show le: "length (in_flight (run e evs start)) \<le> 1"
    by (simp add: session_invariant_def)
  from wf have "loading (ui (run e evs start)) = (in_flight (run e evs start) \<noteq> [])"
    by (simp add: session_invariant_def)
  with le show "loading (ui (run e evs start)) = (length (in_flight (run e evs start)) = 1)"
    by (cases "in_flight (run e evs start)") auto
  have settled: "loading (fetchWeather_settle out st') = False" for st'
    by (cases out) simp_all
  then show "loading (fetchWeather_settle out st) = False" .
  show "in_flight (run e evs start) \<noteq> [] \<longrightarrow>
        loading (ui (step e (Settle out) (run e evs start))) = False
        \<and> in_flight (step e (Settle out) (run e evs start)) = []"
    using le settled by (cases "in_flight (run e evs start)") auto
qed

theorem one_request_at_a_time_witness:
  "loading (ui (run \<lparr>VITE_BACKEND_BASE = None\<rparr> [Click] start))
   \<and> step \<lparr>VITE_BACKEND_BASE = None\<rparr> Click (run \<lparr>VITE_BACKEND_BASE = None\<rparr> [Click] start)
       = run \<lparr>VITE_BACKEND_BASE = None\<rparr> [Click] start
   \<and> in_flight (run \<lparr>VITE_BACKEND_BASE = None\<rparr> [Click] start) \<noteq> []
   \<and> loading (ui (step \<lparr>VITE_BACKEND_BASE = None\<rparr> (Settle (Rejected None))
         (run \<lparr>VITE_BACKEND_BASE = None\<rparr> [Click] start))) = False"
proof -
  have l: "loading (ui (run \<lparr>VITE_BACKEND_BASE = None\<rparr> [Click] start))"
    by (simp add: run_def start_def clickable_page initial_def fetchWeather_begin_def)
  have f: "in_flight (run \<lparr>VITE_BACKEND_BASE = None\<rparr> [Click] start) \<noteq> []"
    by (simp add: run_def start_def clickable_page initial_def fetchWeather_begin_def)
  show ?thesis
    using l f
      one_request_at_a_time [of initial "run \<lparr>VITE_BACKEND_BASE = None\<rparr> [Click] start"
        "\<lparr>VITE_BACKEND_BASE = None\<rparr>" "[Click]" "Rejected None"]
    by blast
qed

subsection \<open>The query string\<close>

text \<open>Parsing undoes serializing: a query string carries exactly the pairs it was made from.\<close>

lemma hex_value_digit:
  assumes "n < 16"
  shows "hex_value (hex_digit n) = Some n"
proof -
  from assms have "n \<in> {0, 1, 2, 3, 4, 5, 6, 7, 8, 9, 10, 11, 12, 13, 14, 15}"
    unfolding insert_iff empty_iff by arith
  then show ?thesis
    by (auto simp: hex_digit_def hex_value_def)
qed

lemma hex_digit_safe:
  assumes "n < 16"
  shows "hex_digit n \<noteq> CHR ''+''" and "hex_digit n \<noteq> CHR ''&''" and "hex_digit n \<noteq> CHR ''=''"
proof -
  from assms have "n \<in> {0, 1, 2, 3, 4, 5, 6, 7, 8, 9, 10, 11, 12, 13, 14, 15}"
    unfolding insert_iff empty_iff by arith
  then show "hex_digit n \<noteq> CHR ''+''" and "hex_digit n \<noteq> CHR ''&''" and "hex_digit n \<noteq> CHR ''=''"
    by (auto simp: hex_digit_def)
qed

lemma percent_decode_plain:
  "c \<noteq> CHR ''%'' \<Longrightarrow> percent_decode (c # cs) = c # percent_decode cs"
proof (cases cs)
  case Nil
  then show ?thesis by simp
next
  case (Cons h t)
  assume "c \<noteq> CHR ''%''"
  with Cons show ?thesis by (cases t) simp_all
qed

lemma form_safe_plain:
  "c \<in> set form_safe \<Longrightarrow> c \<noteq> CHR ''%'' \<and> c \<noteq> CHR ''+'' \<and> c \<noteq> CHR ''&'' \<and> c \<noteq> CHR ''=''"
  by (auto simp: form_safe_def)

lemma byte_digits: "of_char c div 16 < (16::nat)" "of_char c mod 16 < (16::nat)"
proof -
  have "of_char c < (256::nat)" by simp
  then show "of_char c div 16 < (16::nat)" by arith
  show "of_char c mod 16 < (16::nat)" by simp
qed

lemma decode_encode_byte:
  "percent_decode (plus_to_space (urlencode_byte c) @ rest) = c # percent_decode rest"
proof -
  consider "c = CHR '' ''" | "c \<noteq> CHR '' ''" "c \<in> set form_safe"
    | "c \<noteq> CHR '' ''" "c \<notin> set form_safe" by blast
  then show ?thesis
  proof cases
    case 1
    then show ?thesis
      by (simp add: urlencode_byte_def plus_to_space_def percent_decode_plain)
  next
    case 2
    then show ?thesis
      using form_safe_plain [of c]
      by (simp add: urlencode_byte_def plus_to_space_def percent_decode_plain)
  next
    case 3
    let ?h = "hex_digit (of_char c div 16)" and ?l = "hex_digit (of_char c mod 16)"
    have enc: "plus_to_space (urlencode_byte c) = [CHR ''%'', ?h, ?l]"
      using 3 hex_digit_safe(1) [OF byte_digits(1) [of c]] hex_digit_safe(1) [OF byte_digits(2) [of c]]
      by (simp add: urlencode_byte_def plus_to_space_def)
    have "percent_decode (CHR ''%'' # ?h # ?l # rest) =
            char_of (16 * (of_char c div 16) + of_char c mod 16 :: nat) # percent_decode rest"
      by (simp add: hex_value_digit byte_digits)
    also have "(16 * (of_char c div 16) + of_char c mod 16 :: nat) = of_char c"
      by simp
    finally show ?thesis by (simp add: enc)
  qed
qed

lemma decode_encode: "percent_decode (plus_to_space (urlencode s)) = s"
proof (induction s)
  case Nil
  then show ?case by (simp add: urlencode_def plus_to_space_def)
next
  case (Cons c s)
  have "plus_to_space (urlencode (c # s)) = plus_to_space (urlencode_byte c) @ plus_to_space (urlencode s)"
    by (simp add: urlencode_def plus_to_space_def)
  with Cons show ?case by (simp add: decode_encode_byte)
qed

lemma urlencode_byte_no_delimiter:
  "CHR ''&'' \<notin> set (urlencode_byte c) \<and> CHR ''='' \<notin> set (urlencode_byte c)"
  using form_safe_plain [of c] hex_digit_safe [OF byte_digits(1) [of c]]
    hex_digit_safe [OF byte_digits(2) [of c]]
  by (auto simp: urlencode_byte_def)

lemma urlencode_no_delimiter:
  "CHR ''&'' \<notin> set (urlencode s) \<and> CHR ''='' \<notin> set (urlencode s)"
  using urlencode_byte_no_delimiter by (induction s) (auto simp: urlencode_def)

lemma split_at_none: "\<forall>x\<in>set xs. \<not> sep x \<Longrightarrow> split_at sep xs = [xs]"
  by (induction xs) simp_all

lemma split_at_first:
  "\<forall>x\<in>set xs. \<not> sep x \<Longrightarrow> sep c \<Longrightarrow> split_at sep (xs @ c # ys) = xs # split_at sep ys"
  by (induction xs) simp_all

lemma parse_pair_encoded:
  "parse_pair (urlencode name @ ''='' @ urlencode val) = (name, val)"
proof -
  have no: "\<forall>x\<in>set (urlencode name). x \<noteq> CHR ''=''"
    using urlencode_no_delimiter [of name] by auto
  have "takeWhile (\<lambda>c. c \<noteq> CHR ''='') (urlencode name @ CHR ''='' # urlencode val) = urlencode name"
    using no by (simp add: takeWhile_append2)
  moreover have "dropWhile (\<lambda>c. c \<noteq> CHR ''='') (urlencode name @ CHR ''='' # urlencode val)
      = CHR ''='' # urlencode val"
    using no by (simp add: dropWhile_append2)
  ultimately show ?thesis
    by (simp add: parse_pair_def decode_encode)
qed

lemma split_at_serialized:
  "ps \<noteq> [] \<Longrightarrow>
   split_at (\<lambda>c. c = CHR ''&'')
     (join ''&'' (map (\<lambda>p. urlencode (fst p) @ ''='' @ urlencode (snd p)) ps))
   = map (\<lambda>p. urlencode (fst p) @ ''='' @ urlencode (snd p)) ps"
proof (induction ps rule: induct_list012)
  case 1
  then show ?case by simp
next
  case (2 p)
  have "\<forall>x\<in>set (urlencode (fst p) @ ''='' @ urlencode (snd p)). \<not> x = CHR ''&''"
    using urlencode_no_delimiter [of "fst p"] urlencode_no_delimiter [of "snd p"] by auto
  then show ?case by (simp add: split_at_none)
next
  case (3 p q qs)
  let ?enc = "\<lambda>p. urlencode (fst p) @ ''='' @ urlencode (snd p)"
  have no: "\<forall>x\<in>set (?enc p). \<not> x = CHR ''&''"
    using urlencode_no_delimiter [of "fst p"] urlencode_no_delimiter [of "snd p"] by auto
  have "join ''&'' (map ?enc (p # q # qs)) = ?enc p @ CHR ''&'' # join ''&'' (map ?enc (q # qs))"
    by simp
  then have "split_at (\<lambda>c. c = CHR ''&'') (join ''&'' (map ?enc (p # q # qs)))
      = ?enc p # split_at (\<lambda>c. c = CHR ''&'') (join ''&'' (map ?enc (q # qs)))"
    using split_at_first [OF no, of "CHR ''&''"] by simp
  with 3 show ?case by simp
qed

lemma parse_query_toString: "parse_query (params_toString ps) = ps"
proof (cases "ps = []")
  case True
  then show ?thesis by (simp add: parse_query_def params_toString_def)
next
  case False
  let ?enc = "\<lambda>p. urlencode (fst p) @ ''='' @ urlencode (snd p)"
  have "filter (\<lambda>piece. piece \<noteq> []) (map ?enc ps) = map ?enc ps"
    by (induction ps) simp_all
  moreover have "parse_pair (?enc p) = p" for p
    using parse_pair_encoded [of "fst p" "snd p"] by simp
  then have "map parse_pair (map ?enc ps) = ps"
    by (induction ps) simp_all
  ultimately show ?thesis
    using split_at_serialized [OF False]
    by (simp only: parse_query_def params_toString_def)
qed

subsection \<open>Trimming and lines\<close>

text \<open>
  What \<open>trim\<close> and \<open>split\<close> do, said without their definitions. No entry of the white
  space table begins another, so the white space a string begins with is cut off in
  one way only. Trimming takes white space characters off both ends and nothing
  else, and what is left neither begins nor ends with one. The lines of a text are
  the text up to its first line break, followed by the lines of what comes after it.
\<close>

lemma white_space_length:
  "w \<in> set white_space \<Longrightarrow>
   length w = (if of_char (hd w) < (128::nat) then 1 else if hd w = CHR 0xC2 then 2 else 3)"
  by (auto simp: white_space_def)

lemma white_space_nonempty: "w \<in> set white_space \<Longrightarrow> w \<noteq> []"
  by (auto simp: white_space_def)

lemma white_space_same:
  assumes "w \<in> set white_space" and "w' \<in> set white_space"
    and "take (length w) s = w" and "take (length w') s = w'"
  shows "w = w'"
proof -
  from assms(1,2) have ne: "0 < length w" "0 < length w'" by (simp_all add: white_space_nonempty)
  have "hd (take (length w) s) = hd s" "hd (take (length w') s) = hd s"
    using ne by (simp_all add: hd_take)
  then have "hd w = hd s" "hd w' = hd s"
    by (simp_all only: assms(3,4))
  then have "length w = length w'"
    using white_space_length [OF assms(1)] white_space_length [OF assms(2)] by simp
  then have "take (length w) s = take (length w') s" by (rule arg_cong)
  then show ?thesis by (simp only: assms(3,4))
qed

lemma leading_space_found:
  assumes "leading_space s \<noteq> 0"
  shows "\<exists>w\<in>set white_space. take (length w) s = w \<and> leading_space s = length w"
proof (cases "find (\<lambda>w. take (length w) s = w) white_space")
  case None
  with assms show ?thesis by (simp add: leading_space_def)
next
  case (Some w)
  then have "w \<in> set white_space" and "take (length w) s = w"
    by (auto simp: find_Some_iff)
  with Some show ?thesis by (auto simp: leading_space_def)
qed

lemma leading_space_ws:
  assumes "w \<in> set white_space"
  shows "leading_space (w @ x) = length w"
proof (cases "find (\<lambda>w'. take (length w') (w @ x) = w') white_space")
  case None
  with assms show ?thesis by (auto simp: find_None_iff)
next
  case (Some w')
  then have "w' \<in> set white_space" and "take (length w') (w @ x) = w'"
    by (auto simp: find_Some_iff)
  with assms have "w = w'" by (intro white_space_same [of w w' "w @ x"]) simp_all
  with Some show ?thesis by (simp add: leading_space_def)
qed

lemma leading_space_none:
  assumes "leading_space s = 0" and "w \<in> set white_space"
  shows "s \<noteq> w @ x"
proof
  assume "s = w @ x"
  with assms(2) have "leading_space s = length w" by (simp add: leading_space_ws)
  with assms show False by (simp add: white_space_nonempty)
qed

lemma trailing_space_found:
  assumes "trailing_space s \<noteq> 0"
  shows "\<exists>w\<in>set white_space. drop (length s - length w) s = w \<and> length w \<le> length s
           \<and> trailing_space s = length w"
proof (cases "find (\<lambda>w. length w \<le> length s \<and> drop (length s - length w) s = w) white_space")
  case None
  with assms show ?thesis by (simp add: trailing_space_def)
next
  case (Some w)
  then have "w \<in> set white_space" and "length w \<le> length s \<and> drop (length s - length w) s = w"
    by (auto simp: find_Some_iff)
  with Some show ?thesis by (auto simp: trailing_space_def)
qed

lemma trailing_space_none:
  assumes "trailing_space s = 0" and "w \<in> set white_space"
  shows "s \<noteq> x @ w"
proof
  assume "s = x @ w"
  then have "length w \<le> length s \<and> drop (length s - length w) s = w" by simp
  with assms(2) have "find (\<lambda>w. length w \<le> length s \<and> drop (length s - length w) s = w) white_space \<noteq> None"
    by (auto simp: find_None_iff)
  then obtain w' where w': "find (\<lambda>w. length w \<le> length s \<and> drop (length s - length w) s = w) white_space = Some w'"
    by auto
  then have "w' \<in> set white_space" by (auto simp: find_Some_iff)
  then have "w' \<noteq> []" by (rule white_space_nonempty)
  with w' have "trailing_space s \<noteq> 0" by (simp add: trailing_space_def)
  with assms(1) show False by simp
qed


lemma trimStart_parts:
  "\<exists>ws. set ws \<subseteq> set white_space \<and> s = concat ws @ trimStart s"
proof (induction s rule: trimStart.induct)
  case (1 s)
  show ?case
  proof (cases "leading_space s = 0")
    case True
    then have "trimStart s = s" by (subst trimStart.simps) simp
    then have "set [] \<subseteq> set white_space \<and> s = concat [] @ trimStart s" by simp
    then show ?thesis by blast
  next
    case False
    then obtain w where w: "w \<in> set white_space" "take (length w) s = w"
        "leading_space s = length w"
      using leading_space_found by blast
    from False have step: "trimStart s = trimStart (drop (length w) s)"
      by (subst trimStart.simps) (simp add: w(3))
    from "1.IH" [OF False] obtain ws where ws: "set ws \<subseteq> set white_space"
        "drop (length w) s = concat ws @ trimStart (drop (length w) s)"
      by (auto simp: w(3))
    have "s = take (length w) s @ drop (length w) s" by simp
    also have "\<dots> = w @ concat ws @ trimStart s"
      using ws(2) by (simp only: w(2) step)
    finally have "s = concat (w # ws) @ trimStart s" by simp
    moreover have "set (w # ws) \<subseteq> set white_space" using w(1) ws(1) by simp
    ultimately show ?thesis by blast
  qed
qed

lemma trimEnd_parts:
  "\<exists>ws. set ws \<subseteq> set white_space \<and> s = trimEnd s @ concat ws"
proof (induction s rule: trimEnd.induct)
  case (1 s)
  show ?case
  proof (cases "trailing_space s = 0")
    case True
    then have "trimEnd s = s" by (subst trimEnd.simps) simp
    then have "set [] \<subseteq> set white_space \<and> s = trimEnd s @ concat []" by simp
    then show ?thesis by blast
  next
    case False
    then obtain w where w: "w \<in> set white_space" "drop (length s - length w) s = w"
        "trailing_space s = length w"
      using trailing_space_found by blast
    from False have step: "trimEnd s = trimEnd (take (length s - length w) s)"
      by (subst trimEnd.simps) (simp add: w(3))
    from "1.IH" [OF False] obtain ws where ws: "set ws \<subseteq> set white_space"
        "take (length s - length w) s = trimEnd (take (length s - length w) s) @ concat ws"
      by (auto simp: w(3))
    have "s = take (length s - length w) s @ drop (length s - length w) s" by simp
    also have "\<dots> = (trimEnd s @ concat ws) @ w"
      using ws(2) by (simp only: w(2) step)
    finally have "s = trimEnd s @ concat (ws @ [w])" by simp
    moreover have "set (ws @ [w]) \<subseteq> set white_space" using w(1) ws(1) by simp
    ultimately show ?thesis by blast
  qed
qed

lemma leading_space_trimStart: "leading_space (trimStart s) = 0"
proof (induction s rule: trimStart.induct)
  case (1 s)
  show ?case
  proof (cases "leading_space s = 0")
    case True
    then have "trimStart s = s" by (subst trimStart.simps) simp
    with True show ?thesis by simp
  next
    case False
    then have "trimStart s = trimStart (drop (leading_space s) s)"
      by (subst trimStart.simps) simp
    with "1.IH" [OF False] show ?thesis by simp
  qed
qed

lemma trailing_space_trimEnd: "trailing_space (trimEnd s) = 0"
proof (induction s rule: trimEnd.induct)
  case (1 s)
  show ?case
  proof (cases "trailing_space s = 0")
    case True
    then have "trimEnd s = s" by (subst trimEnd.simps) simp
    with True show ?thesis by simp
  next
    case False
    then have "trimEnd s = trimEnd (take (length s - trailing_space s) s)"
      by (subst trimEnd.simps) simp
    with "1.IH" [OF False] show ?thesis by simp
  qed
qed

lemma trim_parts:
  "\<exists>ws1 ws2. set ws1 \<subseteq> set white_space \<and> set ws2 \<subseteq> set white_space
      \<and> s = concat ws1 @ trim s @ concat ws2"
proof -
  obtain ws1 where ws1: "set ws1 \<subseteq> set white_space" "s = concat ws1 @ trimStart s"
    using trimStart_parts by blast
  obtain ws2 where ws2: "set ws2 \<subseteq> set white_space"
      "trimStart s = trimEnd (trimStart s) @ concat ws2"
    using trimEnd_parts by blast
  from ws1(2) ws2(2) have "s = concat ws1 @ trim s @ concat ws2"
    by (simp add: trim_def)
  with ws1(1) ws2(1) show ?thesis by blast
qed

lemma trim_ends:
  assumes "w \<in> set white_space"
  shows "trim s \<noteq> w @ x" and "trim s \<noteq> x @ w"
proof -
  show "trim s \<noteq> x @ w"
    unfolding trim_def using trailing_space_none [OF trailing_space_trimEnd assms] .
  obtain ws2 where ws2: "trimStart s = trimEnd (trimStart s) @ concat ws2"
    using trimEnd_parts by blast
  show "trim s \<noteq> w @ x"
  proof
    assume "trim s = w @ x"
    with ws2 have "trimStart s = w @ (x @ concat ws2)" by (simp add: trim_def)
    with leading_space_none [OF leading_space_trimStart assms] show False by blast
  qed
qed

lemma leading_space_Nil: "leading_space [] = 0"
proof (rule ccontr)
  assume "leading_space [] \<noteq> 0"
  then obtain w where w: "w \<in> set white_space" "take (length w) [] = w"
    using leading_space_found by blast
  from w(2) have "[] = w" by (simp only: take_Nil)
  with white_space_nonempty [OF w(1)] show False by blast
qed

lemma trimStart_Nil: "trimStart [] = []"
  by (subst trimStart.simps) (simp add: leading_space_Nil)

lemma trimStart_spaces:
  "set ws \<subseteq> set white_space \<Longrightarrow> trimStart (concat ws) = []"
proof (induction ws)
  case Nil
  show ?case by (simp add: trimStart_Nil)
next
  case (Cons w ws)
  then have w: "w \<in> set white_space" by simp
  then have found: "leading_space (w @ concat ws) = length w" by (rule leading_space_ws)
  from w have "length w \<noteq> 0" by (simp add: white_space_nonempty)
  with found have "leading_space (w @ concat ws) \<noteq> 0" by simp
  then have "trimStart (w @ concat ws) = trimStart (drop (leading_space (w @ concat ws)) (w @ concat ws))"
    by (subst trimStart.simps) simp
  also have "\<dots> = trimStart (concat ws)" by (simp only: found) simp
  finally show ?case using Cons by simp
qed

lemma trailing_space_Nil: "trailing_space [] = 0"
proof (rule ccontr)
  assume "trailing_space [] \<noteq> 0"
  from trailing_space_found [OF this] obtain w
    where w: "w \<in> set white_space" "length w \<le> length ([] :: string)"
    by blast
  from w(2) have "w = []" by simp
  with white_space_nonempty [OF w(1)] show False by blast
qed

lemma trimEnd_Nil: "trimEnd [] = []"
  by (subst trimEnd.simps) (simp add: trailing_space_Nil)

lemma trim_blank:
  "trim l = [] \<longleftrightarrow> (\<exists>ws. set ws \<subseteq> set white_space \<and> l = concat ws)"
proof
  assume blank: "trim l = []"
  obtain ws1 ws2 where ws: "set ws1 \<subseteq> set white_space" "set ws2 \<subseteq> set white_space"
      and parts: "l = concat ws1 @ trim l @ concat ws2"
    using trim_parts by blast
  have "concat ws1 @ trim l @ concat ws2 = concat (ws1 @ ws2)" by (simp add: blank)
  with parts have "l = concat (ws1 @ ws2)" by (rule trans)
  moreover from ws have "set (ws1 @ ws2) \<subseteq> set white_space" by simp
  ultimately show "\<exists>ws. set ws \<subseteq> set white_space \<and> l = concat ws" by blast
next
  assume "\<exists>ws. set ws \<subseteq> set white_space \<and> l = concat ws"
  then obtain ws where "set ws \<subseteq> set white_space" and l: "l = concat ws" by blast
  then have "trimStart (concat ws) = []" by (simp only: trimStart_spaces)
  then show "trim l = []" by (simp only: trim_def l trimEnd_Nil)
qed

lemma split_lines_one:
  "CHR 0x0A \<notin> set l \<Longrightarrow> CHR 0x0D \<notin> set l \<Longrightarrow> split_lines l = [l]"
  unfolding split_lines_def by (rule split_at_none) auto

lemma split_lines_first:
  assumes "CHR 0x0A \<notin> set l" and "CHR 0x0D \<notin> set l" and "c = CHR 0x0A \<or> c = CHR 0x0D"
  shows "split_lines (l @ c # rest) = l # split_lines rest"
  unfolding split_lines_def using assms by (intro split_at_first) auto

lemma coordsList_one:
  "CHR 0x0A \<notin> set l \<Longrightarrow> CHR 0x0D \<notin> set l \<Longrightarrow>
   coordsList l = (if trim l = [] then [] else [trim l])"
  by (simp add: coordsList_def Boolean_def split_lines_one)

lemma coordsList_first:
  "CHR 0x0A \<notin> set l \<Longrightarrow> CHR 0x0D \<notin> set l \<Longrightarrow> c = CHR 0x0A \<or> c = CHR 0x0D \<Longrightarrow>
   coordsList (l @ c # rest) = (if trim l = [] then [] else [trim l]) @ coordsList rest"
  by (simp add: coordsList_def Boolean_def split_lines_first)

subsection \<open>The requests a session sends\<close>

lemma fold_params_append:
  "fold (\<lambda>c params. params_append name c params) cs ps = ps @ map (Pair name) cs"
  by (induction cs arbitrary: ps) (simp_all add: params_append_def)

lemma fetchWeather_params_eq:
  "fetchWeather_params st =
     (''provider'', state.provider st) # map (Pair ''coords'') (coordsList (coordsText st))"
  by (simp add: fetchWeather_params_def fold_params_append params_set_def)

lemma sent_step:
  "sent (step e ev s) = sent s \<or>
   sent (step e ev s) = sent s @ [\<lparr>http_method = GET, url = fetchWeather_url e (ui s)\<rparr>]"
  by (cases ev) (auto simp: fetchWeather_begin_def split: list.splits)

lemma sent_run:
  "r \<in> set (sent (run e evs s)) \<Longrightarrow>
   r \<in> set (sent s) \<or>
   (\<exists>st. state.provider st = state.provider (ui s) \<and>
         r = \<lparr>http_method = GET, url = fetchWeather_url e st\<rparr>)"
proof (induction evs arbitrary: s)
  case Nil
  then show ?case by (simp add: run_def)
next
  case (Cons ev evs)
  from Cons.prems have "r \<in> set (sent (run e evs (step e ev s)))"
    by (simp add: run_def)
  then have "r \<in> set (sent (step e ev s)) \<or>
   (\<exists>st. state.provider st = state.provider (ui (step e ev s)) \<and>
         r = \<lparr>http_method = GET, url = fetchWeather_url e st\<rparr>)"
    by (rule Cons.IH)
  then show ?case
    using sent_step [of e ev s] by (auto simp: step_provider)
qed

lemma sent_from_start:
  assumes "r \<in> set (sent (run e evs start))"
  shows "\<exists>cs. r = \<lparr>http_method = GET,
            url = BACKEND_BASE e @ ''/api/weather?'' @
              params_toString ((''provider'', ''openmeteo'') # map (Pair ''coords'') cs)\<rparr>"
proof -
  from sent_run [OF assms] obtain st where
    "state.provider st = ''openmeteo''" and "r = \<lparr>http_method = GET, url = fetchWeather_url e st\<rparr>"
    by (auto simp: start_def initial_def)
  then show ?thesis
    by (auto simp: fetchWeather_url_def fetchWeather_params_eq)
qed

lemma sent_after_click:
  "sent (run e [Click] start) =
     [\<lparr>http_method = GET, url = fetchWeather_url e initial\<rparr>]"
  by (simp add: run_def start_def clickable_page initial_def fetchWeather_begin_def)

lemma query_of_fetch:
  "parse_query (params_toString (fetchWeather_params st)) =
     (''provider'', state.provider st) # map (Pair ''coords'') (coordsList (coordsText st))"
  by (simp only: parse_query_toString fetchWeather_params_eq)

text \<open>
  Claim C3. A fetch issues one request: a GET whose URL is the base, \<open>/api/weather?\<close>
  and the query string. The query string carries the provider of the state as
  \<open>provider\<close>, followed by the entries of \<open>coordsList\<close> as \<open>coords\<close> parameters, in
  their order. \<open>coordsList\<close> has one entry for each line of the text that is not empty
  after trimming, in the order of the lines: the first line is the text up to the
  first line feed or carriage return, and it gives its trimmed text or, if that is
  empty, nothing. Trimming leaves the text of a line as it is apart from the white
  space at its two ends. A click on the enabled button adds exactly this request to
  the requests sent; editing the text and the settling of a request send nothing.
\<close>

theorem fetch_sends_one_get:
  "snd (fetchWeather_begin e st) =
     \<lparr>http_method = GET,
      url = BACKEND_BASE e @ ''/api/weather?'' @ params_toString (fetchWeather_params st)\<rparr>
   \<and> parse_query (params_toString (fetchWeather_params st)) =
       (''provider'', state.provider st) # map (Pair ''coords'') (coordsList (coordsText st))
   \<and> (CHR 0x0A \<notin> set l \<and> CHR 0x0D \<notin> set l \<longrightarrow>
        coordsList l = (if trim l = [] then [] else [trim l]))
   \<and> (CHR 0x0A \<notin> set l \<and> CHR 0x0D \<notin> set l \<and> (c = CHR 0x0A \<or> c = CHR 0x0D) \<longrightarrow>
        coordsList (l @ c # rest) = (if trim l = [] then [] else [trim l]) @ coordsList rest)
   \<and> (\<exists>ws1 ws2. set ws1 \<subseteq> set white_space \<and> set ws2 \<subseteq> set white_space
          \<and> l = concat ws1 @ trim l @ concat ws2)
   \<and> (\<forall>w \<in> set white_space. \<forall>x. trim l \<noteq> w @ x \<and> trim l \<noteq> x @ w)
   \<and> (\<not> loading (ui s) \<longrightarrow>
        sent (step e Click s) = sent s @ [snd (fetchWeather_begin e (ui s))])
   \<and> sent (step e (Change t) s) = sent s
   \<and> sent (step e (Settle out) s) = sent s"
proof (intro conjI impI ballI allI)
  show "snd (fetchWeather_begin e st) =
     \<lparr>http_method = GET,
      url = BACKEND_BASE e @ ''/api/weather?'' @ params_toString (fetchWeather_params st)\<rparr>"
    by (simp add: fetchWeather_begin_def fetchWeather_url_def)
  show "parse_query (params_toString (fetchWeather_params st)) =
       (''provider'', state.provider st) # map (Pair ''coords'') (coordsList (coordsText st))"
    by (rule query_of_fetch)
  show "\<exists>ws1 ws2. set ws1 \<subseteq> set white_space \<and> set ws2 \<subseteq> set white_space
          \<and> l = concat ws1 @ trim l @ concat ws2"
    by (rule trim_parts)
  show "sent (step e (Change t) s) = sent s"
    by simp
  show "sent (step e (Settle out) s) = sent s"
    by (simp split: list.splits)
next
  assume "CHR 0x0A \<notin> set l \<and> CHR 0x0D \<notin> set l"
  then show "coordsList l = (if trim l = [] then [] else [trim l])"
    by (intro coordsList_one) blast+
next
  assume "CHR 0x0A \<notin> set l \<and> CHR 0x0D \<notin> set l \<and> (c = CHR 0x0A \<or> c = CHR 0x0D)"
  then show "coordsList (l @ c # rest) = (if trim l = [] then [] else [trim l]) @ coordsList rest"
    by (intro coordsList_first) blast+
next
  fix w x
  assume "w \<in> set white_space"
  then show "trim l \<noteq> w @ x" and "trim l \<noteq> x @ w"
    by (rule trim_ends)+
next
  assume "\<not> loading (ui s)"
  then show "sent (step e Click s) = sent s @ [snd (fetchWeather_begin e (ui s))]"
    by (simp add: clickable_page fetchWeather_begin_def)
qed


lemma example_line: "trim '' 37.7749,-122.4194 '' = ''37.7749,-122.4194''"
  by code_simp

lemma example_rest:
  "coordsList ([CHR 0x0A, CHR 0x09] @ ''40.7128,-74.0060'' @ [CHR 0x0A]) = [''40.7128,-74.0060'']"
  by code_simp

lemma example_query:
  "params_toString
     (fetchWeather_params
        (initial\<lparr>coordsText :=
           '' 37.7749,-122.4194 '' @ CHR 0x0D # [CHR 0x0A, CHR 0x09] @ ''40.7128,-74.0060'' @ [CHR 0x0A]\<rparr>))
   = ''provider=openmeteo&coords=37.7749%2C-122.4194&coords=40.7128%2C-74.0060''"
  by code_simp

lemma example_base: "BACKEND_BASE \<lparr>VITE_BACKEND_BASE = None\<rparr> = ''http://127.0.0.1:8010''"
  by (simp add: BACKEND_BASE_def or_literal_def)

theorem fetch_sends_one_get_witness:
  "sent (step \<lparr>VITE_BACKEND_BASE = None\<rparr> Click
      \<lparr>ui = initial\<lparr>coordsText :=
              '' 37.7749,-122.4194 '' @ CHR 0x0D # [CHR 0x0A, CHR 0x09] @ ''40.7128,-74.0060'' @ [CHR 0x0A]\<rparr>,
       in_flight = [], sent = []\<rparr>)
     = [\<lparr>http_method = GET,
         url = ''http://127.0.0.1:8010/api/weather?provider=openmeteo&coords=37.7749%2C-122.4194&coords=40.7128%2C-74.0060''\<rparr>]
   \<and> parse_query ''provider=openmeteo&coords=37.7749%2C-122.4194&coords=40.7128%2C-74.0060''
     = [(''provider'', ''openmeteo''), (''coords'', ''37.7749,-122.4194''),
        (''coords'', ''40.7128,-74.0060'')]
   \<and> coordsList ('' 37.7749,-122.4194 '' @ CHR 0x0D # [CHR 0x0A, CHR 0x09] @ ''40.7128,-74.0060'' @ [CHR 0x0A])
     = [''37.7749,-122.4194'', ''40.7128,-74.0060'']"
proof -
  let ?l = "'' 37.7749,-122.4194 ''"
  let ?rest = "[CHR 0x0A, CHR 0x09] @ ''40.7128,-74.0060'' @ [CHR 0x0A]"
  let ?st = "initial\<lparr>coordsText := ?l @ CHR 0x0D # ?rest\<rparr>"
  let ?s = "\<lparr>ui = ?st, in_flight = [], sent = []\<rparr>"
  let ?e = "\<lparr>VITE_BACKEND_BASE = None\<rparr>"
  note inst = fetch_sends_one_get [of ?e ?st ?l "CHR 0x0D" ?rest ?s]
  have line: "CHR 0x0A \<notin> set ?l \<and> CHR 0x0D \<notin> set ?l \<and> (CHR 0x0D = CHR 0x0A \<or> CHR 0x0D = CHR 0x0D)"
    by simp
  have idle: "\<not> loading (ui ?s)" by (simp add: initial_def)
  have prov: "state.provider ?st = ''openmeteo''" by (simp add: initial_def)
  have area: "coordsText ?st = ?l @ CHR 0x0D # ?rest" by simp
  have ui: "ui ?s = ?st" by simp
  have nosent: "sent ?s = []" by simp
  have whole: "''http://127.0.0.1:8010'' @ ''/api/weather?'' @
      ''provider=openmeteo&coords=37.7749%2C-122.4194&coords=40.7128%2C-74.0060''
    = ''http://127.0.0.1:8010/api/weather?provider=openmeteo&coords=37.7749%2C-122.4194&coords=40.7128%2C-74.0060''"
    by simp
  from inst line have "coordsList (?l @ CHR 0x0D # ?rest)
      = (if trim ?l = [] then [] else [trim ?l]) @ coordsList ?rest"
    by blast
  then have coords: "coordsList (?l @ CHR 0x0D # ?rest) = [''37.7749,-122.4194'', ''40.7128,-74.0060'']"
    by (simp only: example_line example_rest) simp
  from inst have "parse_query (params_toString (fetchWeather_params ?st)) =
       (''provider'', state.provider ?st) # map (Pair ''coords'') (coordsList (coordsText ?st))"
    by blast
  then have query: "parse_query ''provider=openmeteo&coords=37.7749%2C-122.4194&coords=40.7128%2C-74.0060''
     = [(''provider'', ''openmeteo''), (''coords'', ''37.7749,-122.4194''),
        (''coords'', ''40.7128,-74.0060'')]"
    by (simp only: example_query prov area coords list.map)
  from inst idle have "sent (step ?e Click ?s) = sent ?s @ [snd (fetchWeather_begin ?e (ui ?s))]"
    by blast
  moreover from inst have "snd (fetchWeather_begin ?e ?st) =
     \<lparr>http_method = GET,
      url = BACKEND_BASE ?e @ ''/api/weather?'' @ params_toString (fetchWeather_params ?st)\<rparr>"
    by blast
  ultimately have "sent (step ?e Click ?s)
     = [\<lparr>http_method = GET,
         url = ''http://127.0.0.1:8010/api/weather?provider=openmeteo&coords=37.7749%2C-122.4194&coords=40.7128%2C-74.0060''\<rparr>]"
    by (simp only: ui nosent append_Nil example_query example_base whole)
  with query coords show ?thesis by blast
qed

text \<open>
  Claim C2 as it was stated says that a malformed line such as \<open>not,a,coord\<close> is held
  back. Typing it and clicking sends it to the endpoint.
\<close>

lemma url_example:
  "fetchWeather_url \<lparr>VITE_BACKEND_BASE = None\<rparr> (initial\<lparr>coordsText := ''not,a,coord''\<rparr>) =
     ''http://127.0.0.1:8010/api/weather?provider=openmeteo&coords=not%2Ca%2Ccoord''"
  by code_simp

theorem malformed_coordinate_counterexample:
  "sent (run \<lparr>VITE_BACKEND_BASE = None\<rparr> [Change ''not,a,coord'', Click] start) =
     [\<lparr>http_method = GET,
       url = ''http://127.0.0.1:8010/api/weather?provider=openmeteo&coords=not%2Ca%2Ccoord''\<rparr>]"
proof -
  have "sent (run \<lparr>VITE_BACKEND_BASE = None\<rparr> [Change ''not,a,coord'', Click] start) =
     [\<lparr>http_method = GET,
       url = fetchWeather_url \<lparr>VITE_BACKEND_BASE = None\<rparr> (initial\<lparr>coordsText := ''not,a,coord''\<rparr>)\<rparr>]"
    by (simp add: run_def start_def clickable_page fetchWeather_begin_def initial_def)
  then show ?thesis by (simp only: url_example)
qed

text \<open>
  Claim C2, as amended. The form does not validate coordinates. Whatever the text
  area holds, a click on the enabled button sends one request, to \<open>/api/weather\<close>
  under the base URL, and its parameters are the provider followed by one \<open>coords\<close>
  for each line that is not empty after trimming, with the trimmed line as its value.
  So every such line is sent, well-formed or not, and no \<open>coords\<close> parameter is empty.
  The lines that are empty after trimming, and so dropped, are those made of white
  space characters only.
\<close>

theorem form_sends_every_nonblank_line:
  assumes "\<not> loading (ui s)"
  shows "\<exists>r. sent (run e [Change text, Click] s) = sent s @ [r]
            \<and> take (length (BACKEND_BASE e @ ''/api/weather?'')) (url r)
                = BACKEND_BASE e @ ''/api/weather?''
            \<and> parse_query (drop (length (BACKEND_BASE e @ ''/api/weather?'')) (url r))
                = (''provider'', state.provider (ui s)) #
                  map (Pair ''coords'') (filter (\<lambda>l. l \<noteq> []) (map trim (split_lines text)))
            \<and> (\<forall>l \<in> set (split_lines text). trim l \<noteq> [] \<longrightarrow>
                  (''coords'', trim l) \<in>
                    set (parse_query (drop (length (BACKEND_BASE e @ ''/api/weather?'')) (url r))))
            \<and> (''coords'', []) \<notin>
                  set (parse_query (drop (length (BACKEND_BASE e @ ''/api/weather?'')) (url r)))
            \<and> (\<forall>l. trim l = [] \<longleftrightarrow> (\<exists>ws. set ws \<subseteq> set white_space \<and> l = concat ws))"
proof -
  let ?st = "(ui s)\<lparr>coordsText := text\<rparr>"
  let ?r = "\<lparr>http_method = GET, url = fetchWeather_url e ?st\<rparr>"
  let ?q = "parse_query (drop (length (BACKEND_BASE e @ ''/api/weather?'')) (url ?r))"
  let ?cs = "filter (\<lambda>l. l \<noteq> []) (map trim (split_lines text))"
  from assms have one: "sent (run e [Change text, Click] s) = sent s @ [?r]"
    by (simp add: run_def clickable_page fetchWeather_begin_def)
  have base: "take (length (BACKEND_BASE e @ ''/api/weather?'')) (url ?r)
      = BACKEND_BASE e @ ''/api/weather?''"
    by (simp add: fetchWeather_url_def)
  have "coordsList text = ?cs"
    by (simp add: coordsList_def Boolean_def [abs_def])
  moreover have "?q = (''provider'', state.provider ?st) # map (Pair ''coords'') (coordsList text)"
    using query_of_fetch [of ?st] by (simp add: fetchWeather_url_def)
  ultimately have query: "?q = (''provider'', state.provider (ui s)) # map (Pair ''coords'') ?cs"
    by simp
  have kept: "\<forall>l \<in> set (split_lines text). trim l \<noteq> [] \<longrightarrow> (''coords'', trim l) \<in> set ?q"
    unfolding query by auto
  have dropped: "(''coords'', []) \<notin> set ?q"
    unfolding query by auto
  have blank: "\<forall>l. trim l = [] \<longleftrightarrow> (\<exists>ws. set ws \<subseteq> set white_space \<and> l = concat ws)"
    using trim_blank by blast
  from one base query kept dropped blank show ?thesis by blast
qed


lemma example_lines:
  "filter (\<lambda>l. l \<noteq> [])
     (map trim (split_lines ('' not,a,coord '' @ [CHR 0x0A] @ '' '' @ [CHR 0x09, CHR 0x0D] @ ''91,181'')))
   = [''not,a,coord'', ''91,181'']"
  by code_simp

theorem form_sends_every_nonblank_line_witness:
  "(\<exists>r. sent (run \<lparr>VITE_BACKEND_BASE = None\<rparr>
             [Change ('' not,a,coord '' @ [CHR 0x0A] @ '' '' @ [CHR 0x09, CHR 0x0D] @ ''91,181''), Click]
             start) = sent start @ [r]
        \<and> take (length (BACKEND_BASE \<lparr>VITE_BACKEND_BASE = None\<rparr> @ ''/api/weather?'')) (url r)
            = BACKEND_BASE \<lparr>VITE_BACKEND_BASE = None\<rparr> @ ''/api/weather?''
        \<and> parse_query
             (drop (length (BACKEND_BASE \<lparr>VITE_BACKEND_BASE = None\<rparr> @ ''/api/weather?'')) (url r))
            = [(''provider'', ''openmeteo''), (''coords'', ''not,a,coord''), (''coords'', ''91,181'')])
   \<and> trim ('' '' @ [CHR 0x09]) = []"
proof -
  let ?e = "\<lparr>VITE_BACKEND_BASE = None\<rparr>"
  let ?text = "'' not,a,coord '' @ [CHR 0x0A] @ '' '' @ [CHR 0x09, CHR 0x0D] @ ''91,181''"
  have idle: "\<not> loading (ui start)" by (simp add: start_def initial_def)
  have prov: "state.provider (ui start) = ''openmeteo''" by (simp add: start_def initial_def)
  from form_sends_every_nonblank_line [OF idle, of ?e ?text] obtain r where
    one: "sent (run ?e [Change ?text, Click] start) = sent start @ [r]" and
    base: "take (length (BACKEND_BASE ?e @ ''/api/weather?'')) (url r)
            = BACKEND_BASE ?e @ ''/api/weather?''" and
    query: "parse_query (drop (length (BACKEND_BASE ?e @ ''/api/weather?'')) (url r))
            = (''provider'', state.provider (ui start)) #
              map (Pair ''coords'') (filter (\<lambda>l. l \<noteq> []) (map trim (split_lines ?text)))" and
    blank: "\<forall>l. trim l = [] \<longleftrightarrow> (\<exists>ws. set ws \<subseteq> set white_space \<and> l = concat ws)"
    by blast
  from query have parsed: "parse_query (drop (length (BACKEND_BASE ?e @ ''/api/weather?'')) (url r))
            = [(''provider'', ''openmeteo''), (''coords'', ''not,a,coord''), (''coords'', ''91,181'')]"
    by (simp only: example_lines prov list.map)
  have "set ['' '', [CHR 0x09]] \<subseteq> set white_space \<and> '' '' @ [CHR 0x09] = concat ['' '', [CHR 0x09]]"
    by (simp add: white_space_def)
  with blank have "trim ('' '' @ [CHR 0x09]) = []" by blast
  with one base parsed show ?thesis by blast
qed

subsection \<open>The provider and the base URL\<close>

lemma elements_absent:
  assumes "tag \<notin> {''div'', ''h2'', ''label'', ''textarea'', ''button'', ''table'', ''thead'',
                    ''tbody'', ''tr'', ''th'', ''td''}"
  shows "elements tag (render st) = []"
proof -
  from assms have "concat (map (elements tag) (render_error err)) = []" for err
    by (cases err) (auto simp: render_error_def)
  moreover from assms have "concat (map (elements tag) (render_readings rds)) = []" for rds
    by (cases rds) (auto simp: render_readings_def render_table_def elements_rows_other)
  ultimately show ?thesis
    using assms by (auto simp: render_def)
qed

text \<open>
  Claim C5. The provider starts as \<open>openmeteo\<close> and no event changes it, so it is
  \<open>openmeteo\<close> in every state the form can reach and the \<open>provider\<close> parameter of
  every request sent is \<open>openmeteo\<close>. The page has no \<open>select\<close> and no \<open>input\<close>
  element: there is no control to choose a provider with.
\<close>

theorem provider_fixed_openmeteo:
  "state.provider initial = ''openmeteo''
   \<and> state.provider (ui (step e ev s)) = state.provider (ui s)
   \<and> state.provider (ui (run e evs start)) = ''openmeteo''
   \<and> (\<forall>r \<in> set (sent (run e evs start)).
        \<exists>cs. parse_query (drop (length (BACKEND_BASE e @ ''/api/weather?'')) (url r))
               = (''provider'', ''openmeteo'') # map (Pair ''coords'') cs)
   \<and> elements ''select'' (render st) = []
   \<and> elements ''input'' (render st) = []"
proof (intro conjI ballI)
  show "state.provider initial = ''openmeteo''"
    by (simp add: initial_def)
  show "state.provider (ui (step e ev s)) = state.provider (ui s)"
    by (rule step_provider)
  show "state.provider (ui (run e evs start)) = ''openmeteo''"
    using session_invariant_reachable [of e evs] by (simp add: session_invariant_def)
  show "elements ''select'' (render st) = []"
    by (rule elements_absent) simp
  show "elements ''input'' (render st) = []"
    by (rule elements_absent) simp
next
  fix r
  assume "r \<in> set (sent (run e evs start))"
  then obtain cs where "r = \<lparr>http_method = GET,
            url = BACKEND_BASE e @ ''/api/weather?'' @
              params_toString ((''provider'', ''openmeteo'') # map (Pair ''coords'') cs)\<rparr>"
    using sent_from_start by blast
  then have "parse_query (drop (length (BACKEND_BASE e @ ''/api/weather?'')) (url r))
               = (''provider'', ''openmeteo'') # map (Pair ''coords'') cs"
    by (simp add: parse_query_toString)
  then show "\<exists>cs. parse_query (drop (length (BACKEND_BASE e @ ''/api/weather?'')) (url r))
               = (''provider'', ''openmeteo'') # map (Pair ''coords'') cs" ..
qed

theorem provider_fixed_openmeteo_witness:
  "sent (run \<lparr>VITE_BACKEND_BASE = None\<rparr> [Click] start) =
     [\<lparr>http_method = GET, url = fetchWeather_url \<lparr>VITE_BACKEND_BASE = None\<rparr> initial\<rparr>]
   \<and> (\<exists>cs. parse_query (drop (length (BACKEND_BASE \<lparr>VITE_BACKEND_BASE = None\<rparr> @ ''/api/weather?''))
                 (fetchWeather_url \<lparr>VITE_BACKEND_BASE = None\<rparr> initial))
               = (''provider'', ''openmeteo'') # map (Pair ''coords'') cs)"
  using provider_fixed_openmeteo [of "\<lparr>VITE_BACKEND_BASE = None\<rparr>" Click start "[Click]" initial]
  by (simp add: sent_after_click)

text \<open>
  Claim C6. The base URL is the value of \<open>VITE_BACKEND_BASE\<close> given at build time
  (when none is given, or an empty one, it is \<open>http://127.0.0.1:8010\<close>), and the URL of
  every request the form sends begins with it.
\<close>

theorem requests_begin_with_backend_base:
  "(VITE_BACKEND_BASE e = Some b \<and> b \<noteq> [] \<longrightarrow> BACKEND_BASE e = b)
   \<and> (falsy (VITE_BACKEND_BASE e) \<longrightarrow> BACKEND_BASE e = ''http://127.0.0.1:8010'')
   \<and> url (snd (fetchWeather_begin e st)) =
        BACKEND_BASE e @ ''/api/weather?'' @ params_toString (fetchWeather_params st)
   \<and> (\<forall>r \<in> set (sent (run e evs start)).
        take (length (BACKEND_BASE e)) (url r) = BACKEND_BASE e)"
proof (intro conjI ballI impI)
  assume "VITE_BACKEND_BASE e = Some b \<and> b \<noteq> []"
  then show "BACKEND_BASE e = b"
    by (simp add: BACKEND_BASE_def or_literal_def)
next
  assume "falsy (VITE_BACKEND_BASE e)"
  then show "BACKEND_BASE e = ''http://127.0.0.1:8010''"
    by (auto simp: BACKEND_BASE_def or_literal_def falsy_def)
next
  show "url (snd (fetchWeather_begin e st)) =
        BACKEND_BASE e @ ''/api/weather?'' @ params_toString (fetchWeather_params st)"
    by (simp add: fetchWeather_begin_def fetchWeather_url_def)
next
  fix r
  assume "r \<in> set (sent (run e evs start))"
  then obtain cs where "r = \<lparr>http_method = GET,
            url = BACKEND_BASE e @ ''/api/weather?'' @
              params_toString ((''provider'', ''openmeteo'') # map (Pair ''coords'') cs)\<rparr>"
    using sent_from_start by blast
  then show "take (length (BACKEND_BASE e)) (url r) = BACKEND_BASE e"
    by simp
qed

theorem requests_begin_with_backend_base_witness:
  "BACKEND_BASE \<lparr>VITE_BACKEND_BASE = Some ''https://weather.example.org''\<rparr>
     = ''https://weather.example.org''
   \<and> BACKEND_BASE \<lparr>VITE_BACKEND_BASE = None\<rparr> = ''http://127.0.0.1:8010''
   \<and> take (length ''https://weather.example.org'')
        (fetchWeather_url \<lparr>VITE_BACKEND_BASE = Some ''https://weather.example.org''\<rparr> initial)
     = ''https://weather.example.org''"
proof -
  let ?e = "\<lparr>VITE_BACKEND_BASE = Some ''https://weather.example.org''\<rparr>"
  have configured: "VITE_BACKEND_BASE ?e = Some ''https://weather.example.org''
      \<and> ''https://weather.example.org'' \<noteq> []"
    by simp
  have unset: "falsy (VITE_BACKEND_BASE \<lparr>VITE_BACKEND_BASE = None\<rparr>)"
    by (simp add: falsy_def)
  have clicked: "\<lparr>http_method = GET, url = fetchWeather_url ?e initial\<rparr>
      \<in> set (sent (run ?e [Click] start))"
    by (simp add: sent_after_click)
  have base: "BACKEND_BASE ?e = ''https://weather.example.org''"
    using requests_begin_with_backend_base [of ?e "''https://weather.example.org''" initial "[Click]"]
      configured by blast
  have "take (length (BACKEND_BASE ?e)) (url \<lparr>http_method = GET, url = fetchWeather_url ?e initial\<rparr>)
      = BACKEND_BASE ?e"
    using requests_begin_with_backend_base [of ?e "''https://weather.example.org''" initial "[Click]"]
      clicked by blast
  then have "take (length ''https://weather.example.org'') (fetchWeather_url ?e initial)
      = ''https://weather.example.org''"
    by (simp only: base request.simps)
  moreover have "BACKEND_BASE \<lparr>VITE_BACKEND_BASE = None\<rparr> = ''http://127.0.0.1:8010''"
    using requests_begin_with_backend_base [of "\<lparr>VITE_BACKEND_BASE = None\<rparr>" "[]" initial "[]"] unset
    by blast
  ultimately show ?thesis using base by blast
qed

subsection \<open>Failures\<close>

text \<open>
  Claim C4. After a failed fetch the page shows the line \<open>Error:\<close> followed by the
  \<open>error\<close> text of the endpoint's JSON error object when there is one, and otherwise
  by the message of the failure; a text that is missing or empty counts as absent,
  and with neither the line reads \<open>Request failed\<close>. In every case there is exactly
  one such line, a child of the page's outer element, between the form and the table.
\<close>

theorem failure_message_displayed:
  "(Option.bind (Option.bind (Option.bind e response) data) ErrorBody.error = Some detail \<and> detail \<noteq> []
      \<longrightarrow> render_error (state.error (fetchWeather_settle (Rejected e) st))
            = [Element ''div'' [] [Text ''Error: '', Text detail]])
   \<and> (falsy (Option.bind (Option.bind (Option.bind e response) data) ErrorBody.error)
        \<and> Option.bind e message = Some msg \<and> msg \<noteq> []
      \<longrightarrow> render_error (state.error (fetchWeather_settle (Rejected e) st))
            = [Element ''div'' [] [Text ''Error: '', Text msg]])
   \<and> (falsy (Option.bind (Option.bind (Option.bind e response) data) ErrorBody.error)
        \<and> falsy (Option.bind e message)
      \<longrightarrow> render_error (state.error (fetchWeather_settle (Rejected e) st))
            = [Element ''div'' [] [Text ''Error: '', Text ''Request failed'']])
   \<and> length (render_error (state.error (fetchWeather_settle (Rejected e) st))) = 1
   \<and> children (render (fetchWeather_settle (Rejected e) st)) =
        [Element ''h2'' [] [Text ''Weather Fetcher''],
         Element ''div'' []
           [Element ''label'' []
              [Text ''Coordinates (one per line, lat,lon)'',
               Element ''textarea'' [Value (coordsText st), OnChange, Rows 6] []],
            Element ''button'' [OnClick, Disabled False] [Text ''Fetch Weather'']]]
        @ render_error (state.error (fetchWeather_settle (Rejected e) st))
        @ render_readings (readings st)"
proof (intro conjI impI)
  assume "Option.bind (Option.bind (Option.bind e response) data) ErrorBody.error = Some detail \<and> detail \<noteq> []"
  then show "render_error (state.error (fetchWeather_settle (Rejected e) st))
            = [Element ''div'' [] [Text ''Error: '', Text detail]]"
    by (simp add: render_error_def error_message_def or_js_def or_literal_def falsy_def)
next
  assume "falsy (Option.bind (Option.bind (Option.bind e response) data) ErrorBody.error)
        \<and> Option.bind e message = Some msg \<and> msg \<noteq> []"
  then show "render_error (state.error (fetchWeather_settle (Rejected e) st))
            = [Element ''div'' [] [Text ''Error: '', Text msg]]"
    by (simp add: render_error_def error_message_def or_js_def or_literal_def)
next
  assume "falsy (Option.bind (Option.bind (Option.bind e response) data) ErrorBody.error)
        \<and> falsy (Option.bind e message)"
  then show "render_error (state.error (fetchWeather_settle (Rejected e) st))
            = [Element ''div'' [] [Text ''Error: '', Text ''Request failed'']]"
    by (auto simp: render_error_def error_message_def or_js_def or_literal_def falsy_def)
next
  show "length (render_error (state.error (fetchWeather_settle (Rejected e) st))) = 1"
    by (simp add: render_error_def error_message_nonempty)
next
  show "children (render (fetchWeather_settle (Rejected e) st)) =
        [Element ''h2'' [] [Text ''Weather Fetcher''],
         Element ''div'' []
           [Element ''label'' []
              [Text ''Coordinates (one per line, lat,lon)'',
               Element ''textarea'' [Value (coordsText st), OnChange, Rows 6] []],
            Element ''button'' [OnClick, Disabled False] [Text ''Fetch Weather'']]]
        @ render_error (state.error (fetchWeather_settle (Rejected e) st))
        @ render_readings (readings st)"
    by (simp add: render_def)
qed

theorem failure_message_displayed_witness:
  "render_error (state.error (fetchWeather_settle
      (Rejected (Some \<lparr>response = Some \<lparr>data = Some \<lparr>ErrorBody.error = Some ''Unknown provider''\<rparr>\<rparr>,
                       message = Some ''Request failed with status code 400''\<rparr>)) initial))
     = [Element ''div'' [] [Text ''Error: '', Text ''Unknown provider'']]
   \<and> render_error (state.error (fetchWeather_settle
      (Rejected (Some \<lparr>response = None, message = Some ''Network Error''\<rparr>)) initial))
     = [Element ''div'' [] [Text ''Error: '', Text ''Network Error'']]
   \<and> render_error (state.error (fetchWeather_settle (Rejected None) initial))
     = [Element ''div'' [] [Text ''Error: '', Text ''Request failed'']]"
  using
    failure_message_displayed [where
      e = "Some \<lparr>response = Some \<lparr>data = Some \<lparr>ErrorBody.error = Some ''Unknown provider''\<rparr>\<rparr>,
             message = Some ''Request failed with status code 400''\<rparr>"
      and detail = "''Unknown provider''" and msg = "''Network Error''" and st = initial]
    failure_message_displayed [where
      e = "Some \<lparr>response = None, message = Some ''Network Error''\<rparr>"
      and detail = "''Unknown provider''" and msg = "''Network Error''" and st = initial]
    failure_message_displayed [where e = None
      and detail = "''Unknown provider''" and msg = "''Network Error''" and st = initial]
  by (simp add: falsy_def)

end
